theory Spec2Isabelle
  imports Complex_Main
begin

section \<open>Python values and errors\<close>

text \<open>
  The exceptions the modelled code can let escape.  A function that may raise returns
  \<open>exn + 'a\<close>, with \<open>Inl\<close> for the exception.
\<close>

datatype exn = IndexError | KeyError | ValueError | IOError | ReadError

text \<open>
  \<open>xs[i]\<close> on a Python list with an integer index: a negative index counts from the
  end, and an index outside \<open>-len(xs) .. len(xs)-1\<close> raises \<open>IndexError\<close>.
\<close>

definition py_getitem :: "'a list \<Rightarrow> int \<Rightarrow> exn + 'a" where
  "py_getitem xs i =
     (if 0 \<le> i \<and> i < int (length xs) then Inr (xs ! nat i)
      else if i < 0 \<and> - int (length xs) \<le> i then Inr (xs ! nat (int (length xs) + i))
      else Inl IndexError)"

text \<open>
  \<open>range(0, n, step)\<close>: a zero step raises \<open>ValueError\<close>; with a negative step and
  \<open>0 \<le> n\<close> the range is empty.
\<close>

definition py_range0 :: "nat \<Rightarrow> int \<Rightarrow> exn + nat list" where
  "py_range0 n step =
     (if step = 0 then Inl ValueError
      else if step < 0 then Inr []
      else Inr (map (\<lambda>j. j * nat step) [0 ..< (n + nat step - 1) div nat step]))"

section \<open>Strings: \<open>str.split()\<close>, \<open>str.strip()\<close>, \<open>' '.join\<close>\<close>

text \<open>
  The characters Python's \<open>str.isspace\<close> accepts among the first 256 code points:
  TAB..CR, FS..US, space, NEL and NBSP.
\<close>

definition isspace :: "char \<Rightarrow> bool" where
  "isspace c =
     (let n = (of_char c :: nat)
      in (9 \<le> n \<and> n \<le> 13) \<or> (28 \<le> n \<and> n \<le> 32) \<or> n = 133 \<or> n = 160)"

text \<open>
  \<open>s.split()\<close> with no separator: the maximal runs of non-whitespace characters,
  in order.  \<open>split_from cur s\<close> scans \<open>s\<close> with the word being read in \<open>cur\<close>.
\<close>

fun split_from :: "string \<Rightarrow> string \<Rightarrow> string list" where
  "split_from cur [] = (if cur = [] then [] else [cur])"
| "split_from cur (c # cs) =
     (if isspace c
      then (if cur = [] then split_from [] cs else cur # split_from [] cs)
      else split_from (cur @ [c]) cs)"

definition split :: "string \<Rightarrow> string list" where
  "split s = split_from [] s"

definition lstrip :: "string \<Rightarrow> string" where
  "lstrip s = dropWhile isspace s"

definition rstrip :: "string \<Rightarrow> string" where
  "rstrip s = rev (dropWhile isspace (rev s))"

definition strip :: "string \<Rightarrow> string" where
  "strip s = rstrip (lstrip s)"

fun join :: "string \<Rightarrow> string list \<Rightarrow> string" where
  "join sep [] = []"
| "join sep [w] = w"
| "join sep (w # v # ws) = w @ sep @ join sep (v # ws)"

section \<open>The chunker (\<open>main.py\<close>, \<open>chunk_text\<close>)\<close>

text \<open>
  The sentence loop of \<open>chunk_text\<close>: \<open>chunks\<close> and \<open>current\<close> are the loop's two
  variables, returned as they stand after the last sentence.
\<close>

fun sentence_loop :: "int \<Rightarrow> string list \<Rightarrow> string list \<Rightarrow> string \<Rightarrow> string list \<times> string" where
  "sentence_loop chunk_size [] chunks current = (chunks, current)"
| "sentence_loop chunk_size (sent # rest) chunks current =
     (if int (length (split (current @ '' '' @ sent))) > chunk_size
      then sentence_loop chunk_size rest
             (if current \<noteq> [] then chunks @ [strip current] else chunks) sent
      else sentence_loop chunk_size rest chunks (current @ '' '' @ sent))"

text \<open>
  \<open>chunk_text\<close>.  The module flag \<open>_HAS_SENT_TOKENIZE\<close> and nltk's \<open>sent_tokenize\<close>
  are parameters: the tokenizer is an external capability, any function from a text
  to its list of sentences.
\<close>

definition chunk_text ::
  "bool \<Rightarrow> (string \<Rightarrow> string list) \<Rightarrow> string \<Rightarrow> int \<Rightarrow> exn + string list" where
  "chunk_text has_sent_tokenize sent_tokenize text chunk_size =
     (let words = split text in
      if int (length words) \<le> chunk_size then Inr [text]
      else if has_sent_tokenize then
        (case sentence_loop chunk_size (sent_tokenize text) [] [] of
           (chunks, current) \<Rightarrow>
             Inr (if current \<noteq> [] then chunks @ [strip current] else chunks))
      else
        (case py_range0 (length words) chunk_size of
           Inl e \<Rightarrow> Inl e
         | Inr starts \<Rightarrow>
             Inr (map (\<lambda>i. join '' '' (take (nat chunk_size) (drop i words))) starts)))"

section \<open>The index store (\<open>vector_store.py\<close>, \<open>VectorStore\<close>)\<close>

text \<open>
  A metadata record is a Python dict with string keys; the code reads its \<open>'text'\<close>
  entry.  The store holds the two paths it was constructed with, the rows of the FAISS
  index (\<open>index.ntotal\<close> is their number) and the metadata list.  The type \<open>'v\<close> of an
  embedding vector is left open.
\<close>

type_synonym meta_dict = "string \<rightharpoonup> string"

record 'v store =
  index_path :: string
  meta_path :: string
  index :: "'v list"
  metadata :: "meta_dict list"

text \<open>
  The file system: what each path holds, and whether a write to a path succeeds (a
  full disk, a read-only directory).  A file holds a serialized index, a saved
  metadata array, or bytes that are neither.
\<close>

datatype 'v content = IndexData "'v list" | MetaData "meta_dict list" | Garbage

record 'v disk =
  files :: "string \<rightharpoonup> 'v content"
  writable :: "string \<Rightarrow> bool"

definition path_exists :: "'v disk \<Rightarrow> string \<Rightarrow> bool" where
  "path_exists d p = (files d p \<noteq> None)"

text \<open>
  \<open>faiss.read_index(path)\<close> and \<open>np.load(path, allow_pickle=True).tolist()\<close> read the
  file at the path as it is given and raise on anything but what they expect.
\<close>

definition read_index :: "'v disk \<Rightarrow> string \<Rightarrow> exn + 'v list" where
  "read_index d p = (case files d p of Some (IndexData rows) \<Rightarrow> Inr rows | _ \<Rightarrow> Inl ReadError)"

definition np_load :: "'v disk \<Rightarrow> string \<Rightarrow> exn + meta_dict list" where
  "np_load d p = (case files d p of Some (MetaData ms) \<Rightarrow> Inr ms | _ \<Rightarrow> Inl ReadError)"

text \<open>\<open>faiss.write_index(index, path)\<close> writes the file at the path as it is given.\<close>

definition write_index :: "'v list \<Rightarrow> string \<Rightarrow> 'v disk \<Rightarrow> exn + 'v disk" where
  "write_index rows p d =
     (if writable d p then Inr (d\<lparr>files := (files d)(p \<mapsto> IndexData rows)\<rparr>)
      else Inl IOError)"

text \<open>
  \<open>np.save(file, arr)\<close> with a file name: numpy appends \<open>.npy\<close> to a name that does
  not end in it, and writes there.
\<close>

definition endswith :: "string \<Rightarrow> string \<Rightarrow> bool" where
  "endswith s suffix =
     (length suffix \<le> length s \<and> drop (length s - length suffix) s = suffix)"

definition npy_name :: "string \<Rightarrow> string" where
  "npy_name p = (if endswith p ''.npy'' then p else p @ ''.npy'')"

definition np_save :: "string \<Rightarrow> meta_dict list \<Rightarrow> 'v disk \<Rightarrow> exn + 'v disk" where
  "np_save p ms d =
     (if writable d (npy_name p)
      then Inr (d\<lparr>files := (files d)(npy_name p \<mapsto> MetaData ms)\<rparr>)
      else Inl IOError)"

text \<open>
  \<open>_load_index\<close>.  The body of the \<open>try\<close> reads the index, then the metadata; the
  handler of \<open>except Exception\<close> replaces both by the empty ones.
\<close>

definition try_read :: "'v store \<Rightarrow> 'v disk \<Rightarrow> exn + 'v store" where
  "try_read s d =
     (case read_index d (index_path s) of
        Inl e \<Rightarrow> Inl e
      | Inr rows \<Rightarrow>
          (case np_load d (meta_path s) of
             Inl e \<Rightarrow> Inl e
           | Inr ms \<Rightarrow> Inr (s\<lparr>index := rows, metadata := ms\<rparr>)))"

definition load_index :: "'v store \<Rightarrow> 'v disk \<Rightarrow> exn + 'v store" where
  "load_index s d =
     (if path_exists d (index_path s) \<and> path_exists d (meta_path s)
      then (case try_read s d of
              Inl e \<Rightarrow> Inr (s\<lparr>index := [], metadata := []\<rparr>)
            | Inr s' \<Rightarrow> Inr s')
      else Inr (s\<lparr>index := [], metadata := []\<rparr>))"

text \<open>
  The constructor: it keeps the two paths and loads.  (The embedding model it also
  builds is the parameter \<open>encode\<close> of the functions below.)
\<close>

definition vector_store :: "string \<Rightarrow> string \<Rightarrow> 'v disk \<Rightarrow> exn + 'v store" where
  "vector_store ipath mpath d =
     load_index \<lparr>index_path = ipath, meta_path = mpath, index = [], metadata = []\<rparr> d"

text \<open>
  \<open>save\<close> writes the index, then the metadata; a failed write raises and leaves what
  was written before it.
\<close>

definition save :: "'v store \<Rightarrow> 'v disk \<Rightarrow> (exn + unit) \<times> 'v disk" where
  "save s d =
     (case write_index (index s) (index_path s) d of
        Inl e \<Rightarrow> (Inl e, d)
      | Inr d1 \<Rightarrow>
          (case np_save (meta_path s) (metadata s) d1 of
             Inl e \<Rightarrow> (Inl e, d1)
           | Inr d2 \<Rightarrow> (Inr (), d2)))"

text \<open>
  \<open>add_texts\<close>.  The embedding model is a parameter \<open>encode\<close>, one vector per text;
  \<open>model.encode(texts)\<close> is the list of the texts' vectors.  The result is the
  outcome (an exception of \<open>save\<close>, or none), the store and the disk afterwards.
\<close>

definition add_texts ::
  "(string \<Rightarrow> 'v) \<Rightarrow> 'v store \<Rightarrow> 'v disk \<Rightarrow> string list \<Rightarrow> meta_dict list
     \<Rightarrow> (exn + unit) \<times> 'v store \<times> 'v disk" where
  "add_texts encode s d texts meta =
     (if texts = [] then (Inr (), s, d)
      else
        (let embeddings = map encode texts;
             s1 = s\<lparr>index := index s @ embeddings\<rparr>;
             s2 = s1\<lparr>metadata := metadata s1 @ meta\<rparr>
         in case save s2 d of (r, d') \<Rightarrow> (r, s2, d')))"

text \<open>
  The loop of \<open>search\<close> over \<open>zip(I[0], D[0])\<close>: a hit is a label and a distance.  The
  guard is the source's \<open>idx < len(self.metadata)\<close>; the two subscripts that follow
  can raise.
\<close>

fun collect_hits ::
  "meta_dict list \<Rightarrow> (int \<times> real) list \<Rightarrow> (string \<times> meta_dict \<times> real) list
     \<Rightarrow> exn + (string \<times> meta_dict \<times> real) list" where
  "collect_hits md [] results = Inr results"
| "collect_hits md ((idx, distance) # hits) results =
     (if idx < int (length md) then
        (case py_getitem md idx of
           Inl e \<Rightarrow> Inl e
         | Inr m \<Rightarrow>
             (case m ''text'' of
                None \<Rightarrow> Inl KeyError
              | Some t \<Rightarrow> collect_hits md hits (results @ [(t, m, distance)])))
      else collect_hits md hits results)"

text \<open>
  \<open>search\<close>.  The nearest-neighbour search of the index is a parameter \<open>nn\<close>: from the
  rows, the query vector and \<open>top_k\<close> to the hits in the order the index reports them.
\<close>

definition search ::
  "('v list \<Rightarrow> 'v \<Rightarrow> nat \<Rightarrow> (int \<times> real) list) \<Rightarrow> (string \<Rightarrow> 'v) \<Rightarrow> 'v store
     \<Rightarrow> string \<Rightarrow> nat \<Rightarrow> exn + (string \<times> meta_dict \<times> real) list" where
  "search nn encode s query top_k =
     (if length (index s) = 0 then Inr []
      else collect_hits (metadata s) (nn (index s) (encode query) top_k) [])"

text \<open>
  Modelled from the spec: the flat L2 index is a library (FAISS \<open>IndexFlatL2\<close>), not
  code of the repository.  The spec has it return up to \<open>top_k\<close> nearest rows by a
  distance where lower is more similar; the library reports exactly \<open>top_k\<close> hits,
  the rows by ascending squared Euclidean distance, and fills the places for which
  it has no row with the label \<open>-1\<close> and the largest single-precision number.
  Vectors are lists of reals here.
\<close>

definition l2_sqr :: "real list \<Rightarrow> real list \<Rightarrow> real" where
  "l2_sqr x y = sum_list (map (\<lambda>(a, b). (a - b) * (a - b)) (zip x y))"

definition flt_max :: real where
  "flt_max = 340282346638528859811704183484516925440"

definition flat_l2_search :: "real list list \<Rightarrow> real list \<Rightarrow> nat \<Rightarrow> (int \<times> real) list" where
  "flat_l2_search rows q k =
     (let ranked = sort_key snd (map (\<lambda>(i, v). (int i, l2_sqr v q)) (enumerate 0 rows))
      in take k ranked @ replicate (k - length rows) (- 1, flt_max))"

text \<open>
  What a nearest-neighbour search owes its caller when the index holds at least
  \<open>k\<close> rows: \<open>k\<close> hits, each labelled with a position of the index, at a distance
  that is not negative.
\<close>

definition full_hits :: "nat \<Rightarrow> nat \<Rightarrow> (int \<times> real) list \<Rightarrow> bool" where
  "full_hits ntotal k hits =
     (length hits = k \<and> list_all (\<lambda>(i, d). 0 \<le> i \<and> i < int ntotal \<and> 0 \<le> d) hits)"

section \<open>The answer aggregator (\<open>qa_system.py\<close>, \<open>QASystem\<close>)\<close>

text \<open>
  The output of the question-answering pipeline is a dict read with
  \<open>get('answer', '')\<close> and \<open>get('score', 0)\<close>: either entry may be missing.  The
  pipeline is a parameter \<open>qa\<close> from the question and the context to its output, or
  to the text \<open>str(e)\<close> of the exception it raised.  A candidate is the dict the loop
  appends; its \<open>'error'\<close> entry exists for a failed extraction only.
\<close>

record qa_output =
  out_answer :: "string option"
  out_score :: "real option"

record candidate =
  answer :: string
  score :: real
  ctxt :: string
  meta :: meta_dict
  error :: "string option"

record qa_result =
  best_answer :: "candidate option"
  all_answers :: "candidate list"
  message :: "string option"

definition extract_candidate :: "(string \<Rightarrow> string \<Rightarrow> string + qa_output) \<Rightarrow> string
     \<Rightarrow> string \<times> meta_dict \<times> real \<Rightarrow> candidate" where
  "extract_candidate qa question hit =
     (case hit of (c, m, _) \<Rightarrow>
        (case qa question c of
           Inr output \<Rightarrow>
             \<lparr>answer = (case out_answer output of None \<Rightarrow> [] | Some a \<Rightarrow> a),
              score = (case out_score output of None \<Rightarrow> 0 | Some x \<Rightarrow> x),
              ctxt = c, meta = m, error = None\<rparr>
         | Inl e \<Rightarrow> \<lparr>answer = [], score = 0, ctxt = c, meta = m, error = Some e\<rparr>))"

fun extract_loop :: "(string \<Rightarrow> string \<Rightarrow> string + qa_output) \<Rightarrow> string
     \<Rightarrow> (string \<times> meta_dict \<times> real) list \<Rightarrow> candidate list \<Rightarrow> candidate list" where
  "extract_loop qa question [] candidates = candidates"
| "extract_loop qa question (hit # results) candidates =
     extract_loop qa question results (candidates @ [extract_candidate qa question hit])"

text \<open>
  \<open>max(xs, key=f)\<close>: the running maximum is replaced only by an element whose key is
  strictly greater; an empty list raises \<open>ValueError\<close>.
\<close>

fun max_loop :: "('a \<Rightarrow> real) \<Rightarrow> 'a \<Rightarrow> 'a list \<Rightarrow> 'a" where
  "max_loop f best [] = best"
| "max_loop f best (x # xs) = max_loop f (if f x > f best then x else best) xs"

definition py_max :: "('a \<Rightarrow> real) \<Rightarrow> 'a list \<Rightarrow> exn + 'a" where
  "py_max f xs = (case xs of [] \<Rightarrow> Inl ValueError | x # rest \<Rightarrow> Inr (max_loop f x rest))"

definition no_documents :: qa_result where
  "no_documents =
     \<lparr>best_answer = None, all_answers = [],
      message = Some ''No documents in the index.''\<rparr>"

definition aggregate :: "candidate list \<Rightarrow> exn + qa_result" where
  "aggregate candidates =
     (if candidates \<noteq> [] then
        (case py_max score candidates of
           Inl e \<Rightarrow> Inl e
         | Inr best \<Rightarrow>
             Inr \<lparr>best_answer = Some best, all_answers = candidates, message = None\<rparr>)
      else Inr \<lparr>best_answer = None, all_answers = candidates, message = None\<rparr>)"

definition answer_question ::
  "('v list \<Rightarrow> 'v \<Rightarrow> nat \<Rightarrow> (int \<times> real) list) \<Rightarrow> (string \<Rightarrow> 'v)
     \<Rightarrow> (string \<Rightarrow> string \<Rightarrow> string + qa_output) \<Rightarrow> 'v store \<Rightarrow> string \<Rightarrow> nat
     \<Rightarrow> exn + qa_result" where
  "answer_question nn encode qa s question top_k =
     (case search nn encode s question top_k of
        Inl e \<Rightarrow> Inl e
      | Inr results \<Rightarrow>
          if results = [] then Inr no_documents
          else aggregate (extract_loop qa question results []))"

section \<open>Theorems\<close>

subsection \<open>The chunker\<close>

text \<open>
  Claim C9.  A text with at most \<open>chunk_size\<close> words is returned whole, as the only
  chunk, in both modes of the chunker.
\<close>

theorem chunk_text_short:
  "int (length (split text)) \<le> chunk_size \<Longrightarrow>
   chunk_text has_sent_tokenize sent_tokenize text chunk_size = Inr [text]"
  by (simp add: chunk_text_def)

theorem chunk_text_short_witness:
  "int (length (split ''One two three.'')) \<le> 500 \<and>
   chunk_text True (\<lambda>t. [t]) ''One two three.'' 500 = Inr [''One two three.'']"
proof -
  have h: "int (length (split ''One two three.'')) \<le> 500"
    by (simp add: split_def isspace_def)
  from chunk_text_short [OF h] h show ?thesis by simp
qed

subsection \<open>Words, stripping and joining\<close>






















subsection \<open>The index store\<close>

lemma npy_name_suffixed: "endswith p ''.npy'' \<Longrightarrow> npy_name p = p"
  by (simp add: npy_name_def)

lemma save_Inr:
  assumes "save s d = (Inr u, d')"
  shows "files d' (npy_name (meta_path s)) = Some (MetaData (metadata s))"
    and "index_path s \<noteq> npy_name (meta_path s) \<Longrightarrow>
         files d' (index_path s) = Some (IndexData (index s))"
  using assms
  by (auto simp: save_def write_index_def np_save_def split: if_splits)

lemma load_index_stored:
  "files d (index_path s) = Some (IndexData rows) \<Longrightarrow>
   files d (meta_path s) = Some (MetaData ms) \<Longrightarrow>
   load_index s d = Inr (s\<lparr>index := rows, metadata := ms\<rparr>)"
  by (simp add: load_index_def path_exists_def try_read_def read_index_def np_load_def)

lemma add_texts_store:
  assumes "add_texts encode s d texts metas = (r, s', d')"
  shows "index s' = index s @ map encode texts"
    and "texts \<noteq> [] \<Longrightarrow> metadata s' = metadata s @ metas"
    and "texts = [] \<Longrightarrow> metadata s' = metadata s"
    and "index_path s' = index_path s" and "meta_path s' = meta_path s"
  using assms by (auto simp: add_texts_def Let_def split: prod.splits if_splits)

lemma add_texts_saved:
  assumes "add_texts encode s d texts metas = (Inr u, s', d')" and "texts \<noteq> []"
  shows "save s' d = (Inr u, d')"
  using assms by (auto simp: add_texts_def Let_def split: prod.splits)

lemma add_texts_persisted:
  assumes "add_texts encode s d texts metas = (Inr u, s', d')" and "texts \<noteq> []"
      and "endswith (meta_path s) ''.npy''" and "index_path s \<noteq> meta_path s"
  shows "vector_store (index_path s) (meta_path s) d' = Inr s'"
proof -
  let ?s0 = "\<lparr>index_path = index_path s, meta_path = meta_path s, index = [], metadata = []\<rparr>
               :: 'a store"
  have p: "index_path s' = index_path s" "meta_path s' = meta_path s"
    by (rule add_texts_store(4,5) [OF assms(1)])+
  have n: "npy_name (meta_path s') = meta_path s'"
    using assms(3) p by (simp add: npy_name_suffixed)
  have sv: "save s' d = (Inr u, d')" by (rule add_texts_saved [OF assms(1,2)])
  have m: "files d' (meta_path ?s0) = Some (MetaData (metadata s'))"
    using save_Inr(1) [OF sv] n p by simp
  have i: "files d' (index_path ?s0) = Some (IndexData (index s'))"
    using save_Inr(2) [OF sv] n p assms(4) by simp
  have "load_index ?s0 d' = Inr (?s0\<lparr>index := index s', metadata := metadata s'\<rparr>)"
    by (rule load_index_stored [OF i m])
  moreover have "?s0\<lparr>index := index s', metadata := metadata s'\<rparr> = s'"
    using p by simp
  ultimately show ?thesis by (simp add: vector_store_def)
qed

text \<open>
  Claim C8.  When reading the artifacts fails (the \<open>try\<close> body raises, whatever the
  exception), or when the index file or the metadata file is absent, the constructor's
  load returns normally with the empty index and the empty metadata.
\<close>

theorem load_index_fallback:
  "try_read s d = Inl e \<or> \<not> path_exists d (index_path s) \<or> \<not> path_exists d (meta_path s) \<Longrightarrow>
   load_index s d = Inr (s\<lparr>index := [], metadata := []\<rparr>)"
  by (auto simp: load_index_def)

theorem load_index_fallback_witness:
  "\<not> path_exists
       \<lparr>files = [''faiss.index'' \<mapsto> IndexData [[1::real]]], writable = (\<lambda>p. True)\<rparr>
       (meta_path \<lparr>index_path = ''faiss.index'', meta_path = ''meta.npy'',
                   index = [[5::real]], metadata = [Map.empty]\<rparr>) \<and>
   load_index
     \<lparr>index_path = ''faiss.index'', meta_path = ''meta.npy'',
      index = [[5::real]], metadata = [Map.empty]\<rparr>
     \<lparr>files = [''faiss.index'' \<mapsto> IndexData [[1]]], writable = (\<lambda>p. True)\<rparr> =
   Inr \<lparr>index_path = ''faiss.index'', meta_path = ''meta.npy'', index = [], metadata = []\<rparr> \<and>
   try_read
     \<lparr>index_path = ''faiss.index'', meta_path = ''meta.npy'',
      index = [[5::real]], metadata = [Map.empty]\<rparr>
     \<lparr>files = [''faiss.index'' \<mapsto> IndexData [[1]], ''meta.npy'' \<mapsto> Garbage],
      writable = (\<lambda>p. True)\<rparr> = Inl ReadError \<and>
   load_index
     \<lparr>index_path = ''faiss.index'', meta_path = ''meta.npy'',
      index = [[5::real]], metadata = [Map.empty]\<rparr>
     \<lparr>files = [''faiss.index'' \<mapsto> IndexData [[1]], ''meta.npy'' \<mapsto> Garbage],
      writable = (\<lambda>p. True)\<rparr> =
   Inr \<lparr>index_path = ''faiss.index'', meta_path = ''meta.npy'', index = [], metadata = []\<rparr>"
  (is "?A \<and> ?B \<and> ?C \<and> ?D")
proof -
  have a: ?A by (simp add: path_exists_def)
  have c: ?C by (simp add: try_read_def read_index_def np_load_def)
  from load_index_fallback [OF disjI2, OF disjI2, OF a] have b: ?B by simp
  from load_index_fallback [OF disjI1, OF c] have d: ?D by simp
  from a b c d show ?thesis by (intro conjI)
qed

lemma try_read_Inl_iff:
  "(\<exists>e. try_read s d = Inl e) \<longleftrightarrow>
     (\<forall>rows. files d (index_path s) \<noteq> Some (IndexData rows)) \<or>
     (\<forall>ms. files d (meta_path s) \<noteq> Some (MetaData ms))"
  by (auto simp: try_read_def read_index_def np_load_def
           split: option.splits content.splits sum.splits)

text \<open>
  Claim C2.  From a store with as many rows as metadata entries, \<open>add_texts\<close> on
  equally long \<open>texts\<close> and \<open>metas\<close> leaves a store with as many rows as metadata
  entries, whatever \<open>save\<close> did: the old rows and entries keep their positions, and
  the vector of the \<open>i\<close>-th text and the \<open>i\<close>-th new entry both stand at position
  \<open>length (index s) + i\<close>.
\<close>

theorem add_texts_invariant:
  assumes "length (index s) = length (metadata s)"
      and "length texts = length metas"
      and "add_texts encode s d texts metas = (r, s', d')"
  shows "length (index s') = length (metadata s') \<and>
         index s' = index s @ map encode texts \<and>
         metadata s' = metadata s @ metas \<and>
         (\<forall>i < length (index s). index s' ! i = index s ! i \<and> metadata s' ! i = metadata s ! i) \<and>
         (\<forall>i < length texts.
            index s' ! (length (index s) + i) = encode (texts ! i) \<and>
            metadata s' ! (length (index s) + i) = metas ! i)"
proof -
  have i: "index s' = index s @ map encode texts"
    by (rule add_texts_store(1) [OF assms(3)])
  have m: "metadata s' = metadata s @ metas"
    using add_texts_store(2,3) [OF assms(3)] assms(2) by (cases "texts = []") simp_all
  show ?thesis unfolding i m using assms(1,2) by (simp add: nth_append)
qed

theorem add_texts_invariant_witness:
  "length (index \<lparr>index_path = ''faiss.index'', meta_path = ''meta.npy'',
                  index = [[1::real]], metadata = [[''text'' \<mapsto> ''a'']]\<rparr>) =
     length (metadata \<lparr>index_path = ''faiss.index'', meta_path = ''meta.npy'',
                  index = [[1::real]], metadata = [[''text'' \<mapsto> ''a'']]\<rparr>) \<and>
   length [''bb'', ''ccc''] = length [[''text'' \<mapsto> ''bb''], [''text'' \<mapsto> ''ccc'']] \<and>
   add_texts (\<lambda>t. [real (length t)])
     \<lparr>index_path = ''faiss.index'', meta_path = ''meta.npy'',
      index = [[1]], metadata = [[''text'' \<mapsto> ''a'']]\<rparr>
     \<lparr>files = Map.empty, writable = (\<lambda>p. p = ''faiss.index'')\<rparr>
     [''bb'', ''ccc''] [[''text'' \<mapsto> ''bb''], [''text'' \<mapsto> ''ccc'']] =
   (Inl IOError,
    \<lparr>index_path = ''faiss.index'', meta_path = ''meta.npy'',
     index = [[1], [2], [3]],
     metadata = [[''text'' \<mapsto> ''a''], [''text'' \<mapsto> ''bb''], [''text'' \<mapsto> ''ccc'']]\<rparr>,
    \<lparr>files = [''faiss.index'' \<mapsto> IndexData [[1], [2], [3]]],
     writable = (\<lambda>p. p = ''faiss.index'')\<rparr>) \<and>
   length (index \<lparr>index_path = ''faiss.index'', meta_path = ''meta.npy'',
     index = [[1::real], [2], [3]],
     metadata = [[''text'' \<mapsto> ''a''], [''text'' \<mapsto> ''bb''], [''text'' \<mapsto> ''ccc'']]\<rparr>) =
   length (metadata \<lparr>index_path = ''faiss.index'', meta_path = ''meta.npy'',
     index = [[1::real], [2], [3]],
     metadata = [[''text'' \<mapsto> ''a''], [''text'' \<mapsto> ''bb''], [''text'' \<mapsto> ''ccc'']]\<rparr>)"
  (is "?A \<and> ?B \<and> ?C \<and> ?D")
proof -
  have a: ?A by simp
  have b: ?B by simp
  have c: ?C
    by (simp add: add_texts_def Let_def save_def write_index_def np_save_def
                  npy_name_def endswith_def)
  from add_texts_invariant [OF a b c] have d: ?D by blast
  from a b c d show ?thesis by (intro conjI)
qed

text \<open>
  Claim C3.  The round trip is lost for a metadata path that does not end in
  \<open>.npy\<close>.  A store constructed over \<open>faiss.index\<close> and \<open>meta\<close> on an empty disk,
  to which one text is added without an error, has written the metadata to
  \<open>meta.npy\<close>: no file \<open>meta\<close> exists, and a fresh store over the same two paths
  starts with an empty index and empty metadata.
\<close>

theorem roundtrip_lost_without_npy_suffix:
  "vector_store ''faiss.index'' ''meta'' \<lparr>files = Map.empty, writable = (\<lambda>p. True)\<rparr> =
     Inr \<lparr>index_path = ''faiss.index'', meta_path = ''meta'',
          index = [] :: real list list, metadata = []\<rparr> \<and>
   (case add_texts (\<lambda>t. [real (length t)])
           \<lparr>index_path = ''faiss.index'', meta_path = ''meta'', index = [], metadata = []\<rparr>
           \<lparr>files = Map.empty, writable = (\<lambda>p. True)\<rparr>
           [''bb''] [[''text'' \<mapsto> ''bb'']] of
      (r, s1, d1) \<Rightarrow>
        r = Inr () \<and> index s1 = [[2]] \<and> metadata s1 = [[''text'' \<mapsto> ''bb'']] \<and>
        files d1 ''faiss.index'' = Some (IndexData [[2]]) \<and>
        files d1 ''meta.npy'' = Some (MetaData [[''text'' \<mapsto> ''bb'']]) \<and>
        files d1 ''meta'' = None \<and>
        vector_store ''faiss.index'' ''meta'' d1 =
          Inr \<lparr>index_path = ''faiss.index'', meta_path = ''meta'', index = [], metadata = []\<rparr>)"
  by (simp add: vector_store_def load_index_def path_exists_def add_texts_def Let_def save_def
                write_index_def np_save_def npy_name_def endswith_def)

text \<open>
  With a metadata path that ends in \<open>.npy\<close> and differs from the index path, as the
  default paths do, the round trip holds: a store constructed empty over the two
  paths, to which \<open>N\<close> texts with their \<open>N\<close> metadata entries are added without an
  error, has written artifacts from which a fresh store over the same paths loads
  \<open>N\<close> rows and exactly the metadata that were added, in order.
\<close>

theorem roundtrip_npy:
  assumes "length texts = length metas"
      and "endswith mpath ''.npy''" and "ipath \<noteq> mpath"
      and "vector_store ipath mpath d = Inr s" and "index s = []" and "metadata s = []"
      and "add_texts encode s d texts metas = (Inr (), s', d')"
  shows "\<exists>s2. vector_store ipath mpath d' = Inr s2 \<and>
           length (index s2) = length texts \<and> metadata s2 = metas"
proof -
  have paths: "index_path s = ipath" "meta_path s = mpath"
    using assms(4) by (auto simp: vector_store_def load_index_def try_read_def
                            split: if_splits sum.splits)
  show ?thesis
  proof (cases "texts = []")
    case True
    with assms(1,7) have "d' = d" "metas = []" by (simp_all add: add_texts_def)
    with assms(4,5,6) True show ?thesis by simp
  next
    case False
    have "vector_store ipath mpath d' = Inr s'"
      using add_texts_persisted [OF assms(7) False] assms(2,3) paths by simp
    moreover have "index s' = map encode texts" "metadata s' = metas"
      using add_texts_store(1,2) [OF assms(7)] False assms(5,6) by simp_all
    ultimately show ?thesis by simp
  qed
qed

theorem roundtrip_npy_witness:
  "length [''bb'', ''ccc''] = length [[''text'' \<mapsto> ''bb''], [''text'' \<mapsto> ''ccc'']] \<and>
   endswith ''meta.npy'' ''.npy'' \<and>
   ''faiss.index'' \<noteq> ''meta.npy'' \<and>
   vector_store ''faiss.index'' ''meta.npy'' \<lparr>files = Map.empty, writable = (\<lambda>p. True)\<rparr> =
     Inr \<lparr>index_path = ''faiss.index'', meta_path = ''meta.npy'',
          index = [] :: real list list, metadata = []\<rparr> \<and>
   add_texts (\<lambda>t. [real (length t)])
     \<lparr>index_path = ''faiss.index'', meta_path = ''meta.npy'', index = [], metadata = []\<rparr>
     \<lparr>files = Map.empty, writable = (\<lambda>p. True)\<rparr>
     [''bb'', ''ccc''] [[''text'' \<mapsto> ''bb''], [''text'' \<mapsto> ''ccc'']] =
   (Inr (),
    \<lparr>index_path = ''faiss.index'', meta_path = ''meta.npy'', index = [[2], [3]],
     metadata = [[''text'' \<mapsto> ''bb''], [''text'' \<mapsto> ''ccc'']]\<rparr>,
    \<lparr>files = [''faiss.index'' \<mapsto> IndexData [[2], [3]],
              ''meta.npy'' \<mapsto> MetaData [[''text'' \<mapsto> ''bb''], [''text'' \<mapsto> ''ccc'']]],
     writable = (\<lambda>p. True)\<rparr>) \<and>
   (\<exists>s2. vector_store ''faiss.index'' ''meta.npy''
           \<lparr>files = [''faiss.index'' \<mapsto> IndexData [[2::real], [3]],
              ''meta.npy'' \<mapsto> MetaData [[''text'' \<mapsto> ''bb''], [''text'' \<mapsto> ''ccc'']]],
            writable = (\<lambda>p. True)\<rparr> = Inr s2 \<and>
         length (index s2) = length [''bb'', ''ccc''] \<and>
         metadata s2 = [[''text'' \<mapsto> ''bb''], [''text'' \<mapsto> ''ccc'']])"
  (is "?A \<and> ?B \<and> ?N \<and> ?V \<and> ?C \<and> ?D")
proof -
  have a: ?A by simp
  have b: ?B by (simp add: endswith_def)
  have n: ?N by simp
  have v: ?V by (simp add: vector_store_def load_index_def path_exists_def)
  have c: ?C
    by (simp add: add_texts_def Let_def save_def write_index_def np_save_def
                  npy_name_def endswith_def)
  have d: ?D by (rule roundtrip_npy [OF a b n v _ _ c]) simp_all
  from a b n v c d show ?thesis by (intro conjI)
qed

subsection \<open>Search\<close>

text \<open>
  An empty index is answered before the query is encoded: no hits, whatever the
  query and \<open>top_k\<close>.
\<close>

theorem search_empty_index:
  "search nn encode \<lparr>index_path = ipath, meta_path = mpath, index = [], metadata = md\<rparr>
     query top_k = Inr []"
  by (simp add: search_def)

text \<open>
  A hit whose label is the length of the metadata list or more is skipped: the loop
  goes on with the results it had.
\<close>

theorem collect_hits_skips_large_label:
  "collect_hits md ((int (length md) + int n, distance) # hits) results =
   collect_hits md hits results"
  by simp

lemma collect_hits_valid:
  assumes "list_all (\<lambda>(i, d). 0 \<le> i \<and> i < int (length md)) hits"
      and "\<forall>m \<in> set md. ''text'' \<in> dom m"
  shows "collect_hits md hits results =
           Inr (results @ map (\<lambda>(i, d). (the ((md ! nat i) ''text''), md ! nat i, d)) hits)"
  using assms(1)
proof (induction hits arbitrary: results)
  case Nil
  then show ?case by simp
next
  case (Cons h hits)
  obtain i d where h: "h = (i, d)" by (cases h)
  with Cons.prems have i: "0 \<le> i" "i < int (length md)" by simp_all
  then have "md ! nat i \<in> set md" by simp
  with assms(2) obtain t where t: "(md ! nat i) ''text'' = Some t" by blast
  from Cons.prems have "list_all (\<lambda>(i, d). 0 \<le> i \<and> i < int (length md)) hits" by simp
  from Cons.IH [OF this] i t show ?case
    by (simp add: h py_getitem_def)
qed

lemma l2_sqr_nonneg: "0 \<le> l2_sqr x y"
  unfolding l2_sqr_def by (rule sum_list_nonneg) auto

lemma flat_l2_full:
  assumes "k \<le> length rows"
  shows "full_hits (length rows) k (flat_l2_search rows q k)"
proof -
  let ?ranked = "sort_key snd (map (\<lambda>(i, v). (int i, l2_sqr v q)) (enumerate 0 rows))"
  have fl: "flat_l2_search rows q k = take k ?ranked"
    using assms by (simp add: flat_l2_search_def)
  have len: "length (take k ?ranked) = k" using assms by simp
  have "0 \<le> i \<and> i < int (length rows) \<and> 0 \<le> d" if "(i, d) \<in> set (take k ?ranked)" for i d
  proof -
    from that have "(i, d) \<in> set ?ranked" by (rule in_set_takeD)
    then obtain j v where "(j, v) \<in> set (enumerate 0 rows)" "i = int j" "d = l2_sqr v q"
      by auto
    then show ?thesis by (auto simp: in_set_enumerate_eq l2_sqr_nonneg)
  qed
  then have "list_all (\<lambda>(i, d). 0 \<le> i \<and> i < int (length rows) \<and> 0 \<le> d) (take k ?ranked)"
    unfolding list_all_iff by blast
  with len show ?thesis unfolding fl full_hits_def by blast
qed

text \<open>
  Claim C4.  On a store with as many rows as metadata entries, each entry with a
  \<open>'text'\<close> key, and at least \<open>k\<close> rows, \<open>search\<close> with \<open>top_k = k\<close> over the flat L2
  index returns exactly \<open>k\<close> tuples: the \<open>j\<close>-th is the text, the metadata entry
  and the distance of the \<open>j\<close>-th hit, whose label is a position of the metadata list
  and whose distance is not negative.
\<close>

theorem search_top_k:
  assumes "length (index s) = length (metadata s)" and "k \<le> length (index s)"
      and "\<forall>m \<in> set (metadata s). ''text'' \<in> dom m"
  shows "\<exists>rs. search flat_l2_search encode s query k = Inr rs \<and> length rs = k \<and>
           (\<forall>j < k. \<exists>i d t. flat_l2_search (index s) (encode query) k ! j = (i, d) \<and>
               0 \<le> i \<and> i < int (length (metadata s)) \<and> 0 \<le> d \<and>
               (metadata s ! nat i) ''text'' = Some t \<and>
               rs ! j = (t, metadata s ! nat i, d))"
proof (cases "length (index s) = 0")
  case True
  with assms(2) show ?thesis by (simp add: search_def)
next
  case False
  let ?md = "metadata s"
  let ?hits = "flat_l2_search (index s) (encode query) k"
  let ?rs = "map (\<lambda>(i, d). (the ((?md ! nat i) ''text''), ?md ! nat i, d)) ?hits"
  from flat_l2_full [OF assms(2)] have len: "length ?hits = k"
    and ok: "list_all (\<lambda>(i, d). 0 \<le> i \<and> i < int (length (index s)) \<and> 0 \<le> d) ?hits"
    by (simp_all add: full_hits_def)
  from ok have ok': "list_all (\<lambda>(i, d). 0 \<le> i \<and> i < int (length ?md)) ?hits"
    unfolding assms(1) list_all_iff by auto
  have sr: "search flat_l2_search encode s query k = Inr ?rs"
    using False collect_hits_valid [OF ok' assms(3), of "[]"] by (simp add: search_def)
  have "\<exists>i d t. ?hits ! j = (i, d) \<and> 0 \<le> i \<and> i < int (length ?md) \<and> 0 \<le> d \<and>
               (?md ! nat i) ''text'' = Some t \<and> ?rs ! j = (t, ?md ! nat i, d)" if j: "j < k" for j
  proof -
    obtain i d where h: "?hits ! j = (i, d)" by (cases "?hits ! j")
    from j len have mem: "?hits ! j \<in> set ?hits" by simp
    with ok h have b: "0 \<le> i" "i < int (length ?md)" "0 \<le> d"
      unfolding assms(1) list_all_iff by auto
    then have "?md ! nat i \<in> set ?md" by simp
    with assms(3) obtain t where t: "(?md ! nat i) ''text'' = Some t" by blast
    from j len h t have "?rs ! j = (t, ?md ! nat i, d)" by simp
    with h b t show ?thesis by blast
  qed
  with sr len show ?thesis by simp
qed

theorem search_top_k_witness:
  "length (index \<lparr>index_path = ''faiss.index'', meta_path = ''meta.npy'',
          index = [[0::real], [1], [2]],
        metadata = [[''text'' \<mapsto> ''a''], [''text'' \<mapsto> ''b''], [''text'' \<mapsto> ''c'']]\<rparr>) =
   length (metadata \<lparr>index_path = ''faiss.index'', meta_path = ''meta.npy'',
          index = [[0::real], [1], [2]],
        metadata = [[''text'' \<mapsto> ''a''], [''text'' \<mapsto> ''b''], [''text'' \<mapsto> ''c'']]\<rparr>) \<and>
   (2::nat) \<le> length (index \<lparr>index_path = ''faiss.index'', meta_path = ''meta.npy'',
          index = [[0::real], [1], [2]],
        metadata = [[''text'' \<mapsto> ''a''], [''text'' \<mapsto> ''b''], [''text'' \<mapsto> ''c'']]\<rparr>) \<and>
   list_all (\<lambda>m. ''text'' \<in> dom m)
     (metadata \<lparr>index_path = ''faiss.index'', meta_path = ''meta.npy'',
          index = [[0::real], [1], [2]],
        metadata = [[''text'' \<mapsto> ''a''], [''text'' \<mapsto> ''b''], [''text'' \<mapsto> ''c'']]\<rparr>) \<and>
   search flat_l2_search (\<lambda>t. [2])
     \<lparr>index_path = ''faiss.index'', meta_path = ''meta.npy'',
      index = [[0], [1], [2]],
      metadata = [[''text'' \<mapsto> ''a''], [''text'' \<mapsto> ''b''], [''text'' \<mapsto> ''c'']]\<rparr> ''q'' 2 =
   Inr [(''c'', [''text'' \<mapsto> ''c''], 0), (''b'', [''text'' \<mapsto> ''b''], 1)] \<and>
   (\<exists>rs. search flat_l2_search (\<lambda>t. [2])
        \<lparr>index_path = ''faiss.index'', meta_path = ''meta.npy'',
         index = [[0], [1], [2]],
         metadata = [[''text'' \<mapsto> ''a''], [''text'' \<mapsto> ''b''], [''text'' \<mapsto> ''c'']]\<rparr> ''q'' 2 =
      Inr rs \<and> length rs = 2)"
  (is "?A \<and> ?B \<and> ?T \<and> ?E \<and> ?C")
proof -
  let ?s = "\<lparr>index_path = ''faiss.index'', meta_path = ''meta.npy'',
          index = [[0::real], [1], [2]],
        metadata = [[''text'' \<mapsto> ''a''], [''text'' \<mapsto> ''b''], [''text'' \<mapsto> ''c'']]\<rparr>"
  have a: ?A by simp
  have b: ?B by simp
  have t: ?T by simp
  then have t': "\<forall>m \<in> set (metadata ?s). ''text'' \<in> dom m" by simp
  have e: ?E by (simp add: search_def flat_l2_search_def l2_sqr_def py_getitem_def)
  from search_top_k [OF a b t', of "\<lambda>t. [2]" "''q''"] have c: ?C by blast
  from a b t e c show ?thesis by (intro conjI)
qed

text \<open>
  Claim C1.  The guard of \<open>search\<close> lets a negative label through.  On a store with
  one row and \<open>top_k = 2\<close> the index has no second row to report and labels the
  second hit \<open>-1\<close>: \<open>search\<close> returns a second tuple for it, the last metadata entry
  once more, and with an empty metadata list the subscript raises \<open>IndexError\<close>.
\<close>

theorem search_negative_label:
  "search flat_l2_search (\<lambda>t. [0])
     \<lparr>index_path = ''faiss.index'', meta_path = ''meta.npy'',
      index = [[0]], metadata = [[''text'' \<mapsto> ''a'']]\<rparr> ''q'' 2 =
   Inr [(''a'', [''text'' \<mapsto> ''a''], 0), (''a'', [''text'' \<mapsto> ''a''], flt_max)] \<and>
   search flat_l2_search (\<lambda>t. [0]) \<lparr>index_path = ''faiss.index'', meta_path = ''meta.npy'',
          index = [[0]], metadata = []\<rparr> ''q'' 2 =
   Inl IndexError"
  by (simp add: search_def flat_l2_search_def l2_sqr_def py_getitem_def)

subsection \<open>The answer aggregator\<close>

lemma extract_loop_map:
  "extract_loop qa question results acc = acc @ map (extract_candidate qa question) results"
  by (induction results arbitrary: acc) simp_all

lemma max_loop_first:
  assumes "i < length pre"
      and "\<forall>j < length pre. f (pre ! j) \<le> f (pre ! i)"
      and "\<forall>j < i. f (pre ! j) < f (pre ! i)"
  shows "\<exists>i' < length (pre @ xs).
           (pre @ xs) ! i' = max_loop f (pre ! i) xs \<and>
           (\<forall>j < length (pre @ xs). f ((pre @ xs) ! j) \<le> f ((pre @ xs) ! i')) \<and>
           (\<forall>j < i'. f ((pre @ xs) ! j) < f ((pre @ xs) ! i'))"
  using assms
proof (induction xs arbitrary: pre i)
  case Nil
  then show ?case by auto
next
  case (Cons x xs)
  let ?pre = "pre @ [x]"
  show ?case
  proof (cases "f x > f (pre ! i)")
    case True
    have a: "length pre < length ?pre" by simp
    have b: "\<forall>j < length ?pre. f (?pre ! j) \<le> f (?pre ! length pre)"
      using Cons.prems True by (auto simp: nth_append less_Suc_eq intro: order.trans less_imp_le)
    have c: "\<forall>j < length pre. f (?pre ! j) < f (?pre ! length pre)"
      using Cons.prems True by (auto simp: nth_append intro: le_less_trans)
    from Cons.IH [OF a b c] True show ?thesis by simp
  next
    case False
    have a: "i < length ?pre" using Cons.prems by simp
    have b: "\<forall>j < length ?pre. f (?pre ! j) \<le> f (?pre ! i)"
      using Cons.prems False by (auto simp: nth_append less_Suc_eq)
    have c: "\<forall>j < i. f (?pre ! j) < f (?pre ! i)"
      using Cons.prems by (auto simp: nth_append)
    from Cons.IH [OF a b c] False Cons.prems(1) show ?thesis by (simp add: nth_append)
  qed
qed

lemma py_max_first:
  assumes "xs \<noteq> []"
  shows "\<exists>b i. py_max f xs = Inr b \<and> i < length xs \<and> xs ! i = b \<and>
           (\<forall>j < length xs. f (xs ! j) \<le> f b) \<and> (\<forall>j < i. f (xs ! j) < f b)"
proof -
  from assms obtain x rest where xs: "xs = x # rest" by (cases xs) auto
  have "\<exists>i' < length ([x] @ rest).
           ([x] @ rest) ! i' = max_loop f ([x] ! 0) rest \<and>
           (\<forall>j < length ([x] @ rest). f (([x] @ rest) ! j) \<le> f (([x] @ rest) ! i')) \<and>
           (\<forall>j < i'. f (([x] @ rest) ! j) < f (([x] @ rest) ! i'))"
    by (rule max_loop_first) simp_all
  then show ?thesis unfolding xs py_max_def by auto
qed


lemma answer_question_nonempty:
  assumes "search nn encode s question top_k = Inr results" and "results \<noteq> []"
  shows "answer_question nn encode qa s question top_k =
           aggregate (map (extract_candidate qa question) results)"
  using assms by (simp add: answer_question_def extract_loop_map)

lemma aggregate_nonempty:
  assumes "cands \<noteq> []"
  shows "\<exists>b i. aggregate cands = Inr \<lparr>best_answer = Some b, all_answers = cands, message = None\<rparr> \<and>
           i < length cands \<and> cands ! i = b \<and>
           (\<forall>j < length cands. score (cands ! j) \<le> score b) \<and>
           (\<forall>j < i. score (cands ! j) < score b)"
proof -
  from py_max_first [OF assms, of score] obtain b i where
    "py_max score cands = Inr b" "i < length cands" "cands ! i = b"
    "\<forall>j < length cands. score (cands ! j) \<le> score b" "\<forall>j < i. score (cands ! j) < score b"
    by blast
  with assms show ?thesis by (auto simp: aggregate_def)
qed

lemma extract_candidate_origin:
  "ctxt (extract_candidate qa question (c, m, d)) = c"
  "meta (extract_candidate qa question (c, m, d)) = m"
  by (simp_all add: extract_candidate_def split: sum.splits)

text \<open>
  Claim C6.  When retrieval returns a non-empty list, \<open>answer_question\<close> returns one
  candidate per retrieved context, in retrieval order, and its best answer is the
  candidate at the first position where the score is maximal.
\<close>

theorem best_answer_first_max:
  assumes "search nn encode s question top_k = Inr results" and "results \<noteq> []"
  shows "\<exists>r b i. answer_question nn encode qa s question top_k = Inr r \<and>
           best_answer r = Some b \<and>
           all_answers r = map (extract_candidate qa question) results \<and>
           map ctxt (all_answers r) = map fst results \<and>
           map meta (all_answers r) = map (fst \<circ> snd) results \<and>
           i < length (all_answers r) \<and> all_answers r ! i = b \<and>
           (\<forall>j < length (all_answers r). score (all_answers r ! j) \<le> score b) \<and>
           (\<forall>j < i. score (all_answers r ! j) < score b)"
proof -
  let ?cands = "map (extract_candidate qa question) results"
  have ne: "?cands \<noteq> []" using assms(2) by simp
  have c: "map ctxt ?cands = map fst results"
    by (induction results) (auto simp: extract_candidate_origin)
  have m: "map meta ?cands = map (fst \<circ> snd) results"
    by (induction results) (auto simp: extract_candidate_origin)
  from aggregate_nonempty [OF ne] obtain b i where
    "aggregate ?cands = Inr \<lparr>best_answer = Some b, all_answers = ?cands, message = None\<rparr>"
    "i < length ?cands" "?cands ! i = b"
    "\<forall>j < length ?cands. score (?cands ! j) \<le> score b" "\<forall>j < i. score (?cands ! j) < score b"
    by blast
  with c m show ?thesis
    unfolding answer_question_nonempty [OF assms] by force
qed

theorem best_answer_first_max_witness:
  "search flat_l2_search (\<lambda>t. [0])
      \<lparr>index_path = ''faiss.index'', meta_path = ''meta.npy'',
       index = [[0], [1], [2]],
        metadata = [[''text'' \<mapsto> ''a''], [''text'' \<mapsto> ''b''], [''text'' \<mapsto> ''c'']]\<rparr> ''q'' 3 =
    Inr [(''a'', [''text'' \<mapsto> ''a''], 0 :: real), (''b'', [''text'' \<mapsto> ''b''], 1),
      (''c'', [''text'' \<mapsto> ''c''], 4)] \<and>
   [(''a'', [''text'' \<mapsto> ''a''], 0 :: real), (''b'', [''text'' \<mapsto> ''b''], 1),
      (''c'', [''text'' \<mapsto> ''c''], 4)] \<noteq> [] \<and>
   (\<exists>r b i. answer_question flat_l2_search (\<lambda>t. [0])
      (\<lambda>q c. Inr \<lparr>out_answer = Some c,
         out_score = Some (if c = ''a'' then 0.2 else if c = ''b'' then 0.9 else 0.5)\<rparr>)
      \<lparr>index_path = ''faiss.index'', meta_path = ''meta.npy'',
       index = [[0], [1], [2]],
        metadata = [[''text'' \<mapsto> ''a''], [''text'' \<mapsto> ''b''], [''text'' \<mapsto> ''c'']]\<rparr> ''q'' 3 = Inr r \<and>
      best_answer r = Some b \<and>
      all_answers r = map (extract_candidate (\<lambda>q c. Inr \<lparr>out_answer = Some c,
         out_score = Some (if c = ''a'' then 0.2 else if c = ''b'' then 0.9 else 0.5)\<rparr>) ''q'')
        [(''a'', [''text'' \<mapsto> ''a''], 0 :: real), (''b'', [''text'' \<mapsto> ''b''], 1),
      (''c'', [''text'' \<mapsto> ''c''], 4)] \<and>
      map ctxt (all_answers r) = map fst [(''a'', [''text'' \<mapsto> ''a''], 0 :: real), (''b'', [''text'' \<mapsto> ''b''], 1),
      (''c'', [''text'' \<mapsto> ''c''], 4)] \<and>
      map meta (all_answers r) = map (fst \<circ> snd) [(''a'', [''text'' \<mapsto> ''a''], 0 :: real), (''b'', [''text'' \<mapsto> ''b''], 1),
      (''c'', [''text'' \<mapsto> ''c''], 4)] \<and>
      i < length (all_answers r) \<and> all_answers r ! i = b \<and>
      (\<forall>j < length (all_answers r). score (all_answers r ! j) \<le> score b) \<and>
      (\<forall>j < i. score (all_answers r ! j) < score b))"
  (is "?A \<and> ?B \<and> ?C")
proof -
  have a: ?A by (simp add: search_def flat_l2_search_def l2_sqr_def py_getitem_def)
  have b: ?B by simp
  have c: ?C by (rule best_answer_first_max [OF a b])
  from a b c show ?thesis by (intro conjI)
qed

text \<open>
  Claim C7.  When the pipeline raises on the \<open>j\<close>-th retrieved context,
  \<open>answer_question\<close> still returns, with one candidate per retrieved context, and
  the \<open>j\<close>-th candidate has the empty answer, the score 0, the context and its
  metadata, and the exception's text as its error.
\<close>

theorem extraction_failure_isolated:
  assumes "search nn encode s question top_k = Inr results"
      and "j < length results" and "results ! j = (c, m, d)"
      and "qa question c = Inl msg"
  shows "\<exists>r. answer_question nn encode qa s question top_k = Inr r \<and>
           length (all_answers r) = length results \<and>
           all_answers r ! j = \<lparr>answer = [], score = 0, ctxt = c, meta = m, error = Some msg\<rparr>"
proof -
  let ?cands = "map (extract_candidate qa question) results"
  from assms(2) have ne: "results \<noteq> []" by auto
  then have "?cands \<noteq> []" by simp
  from aggregate_nonempty [OF this] obtain b where
    "aggregate ?cands = Inr \<lparr>best_answer = Some b, all_answers = ?cands, message = None\<rparr>"
    by blast
  moreover have "?cands ! j = \<lparr>answer = [], score = 0, ctxt = c, meta = m, error = Some msg\<rparr>"
    using assms(2,3,4) by (simp add: extract_candidate_def)
  ultimately show ?thesis
    unfolding answer_question_nonempty [OF assms(1) ne] by simp
qed

theorem extraction_failure_isolated_witness:
  "search flat_l2_search (\<lambda>t. [0])
      \<lparr>index_path = ''faiss.index'', meta_path = ''meta.npy'',
       index = [[0], [1], [2]],
        metadata = [[''text'' \<mapsto> ''a''], [''text'' \<mapsto> ''b''], [''text'' \<mapsto> ''c'']]\<rparr> ''q'' 3 =
    Inr [(''a'', [''text'' \<mapsto> ''a''], 0 :: real), (''b'', [''text'' \<mapsto> ''b''], 1),
      (''c'', [''text'' \<mapsto> ''c''], 4)] \<and>
   (1::nat) < length [(''a'', [''text'' \<mapsto> ''a''], 0 :: real), (''b'', [''text'' \<mapsto> ''b''], 1),
      (''c'', [''text'' \<mapsto> ''c''], 4)] \<and>
   [(''a'', [''text'' \<mapsto> ''a''], 0 :: real), (''b'', [''text'' \<mapsto> ''b''], 1),
      (''c'', [''text'' \<mapsto> ''c''], 4)] ! 1 = (''b'', [''text'' \<mapsto> ''b''], 1) \<and>
   (\<lambda>q c. if c = ''b'' then Inl ''model failure''
         else Inr \<lparr>out_answer = Some c, out_score = Some 0.5\<rparr>) ''q'' ''b'' = Inl ''model failure'' \<and>
   (\<exists>r. answer_question flat_l2_search (\<lambda>t. [0])
      (\<lambda>q c. if c = ''b'' then Inl ''model failure''
         else Inr \<lparr>out_answer = Some c, out_score = Some 0.5\<rparr>)
      \<lparr>index_path = ''faiss.index'', meta_path = ''meta.npy'',
       index = [[0], [1], [2]],
        metadata = [[''text'' \<mapsto> ''a''], [''text'' \<mapsto> ''b''], [''text'' \<mapsto> ''c'']]\<rparr> ''q'' 3 = Inr r \<and>
      length (all_answers r) = length [(''a'', [''text'' \<mapsto> ''a''], 0 :: real), (''b'', [''text'' \<mapsto> ''b''], 1),
      (''c'', [''text'' \<mapsto> ''c''], 4)] \<and>
      all_answers r ! 1 =
        \<lparr>answer = [], score = 0, ctxt = ''b'', meta = [''text'' \<mapsto> ''b''],
         error = Some ''model failure''\<rparr>)"
  (is "?A \<and> ?J \<and> ?K \<and> ?Q \<and> ?C")
proof -
  have a: ?A by (simp add: search_def flat_l2_search_def l2_sqr_def py_getitem_def)
  have j: ?J by simp
  have k: ?K by simp
  have q: ?Q by simp
  have c: ?C
    by (rule extraction_failure_isolated
          [where qa = "(\<lambda>q c. if c = ''b'' then Inl ''model failure''
         else Inr \<lparr>out_answer = Some c, out_score = Some 0.5\<rparr>)"
             and question = "''q''" and c = "''b''" and msg = "''model failure''",
           OF a j k q])
  from a j k q c show ?thesis by (intro conjI)
qed

text \<open>
  Claim C10.  When retrieval returns a non-empty list, the best answer is a member of
  the returned candidate list, which is not empty.
\<close>

theorem best_answer_is_candidate:
  assumes "search nn encode s question top_k = Inr results" and "results \<noteq> []"
  shows "\<exists>r b. answer_question nn encode qa s question top_k = Inr r \<and>
           best_answer r = Some b \<and> b \<in> set (all_answers r) \<and> all_answers r \<noteq> []"
proof -
  let ?cands = "map (extract_candidate qa question) results"
  have ne: "?cands \<noteq> []" using assms(2) by simp
  from aggregate_nonempty [OF ne] obtain b i where
    "aggregate ?cands = Inr \<lparr>best_answer = Some b, all_answers = ?cands, message = None\<rparr>"
    "i < length ?cands" "?cands ! i = b"
    by blast
  then show ?thesis
    unfolding answer_question_nonempty [OF assms] using ne by (auto simp del: map_is_Nil_conv)
qed

theorem best_answer_is_candidate_witness:
  "search flat_l2_search (\<lambda>t. [0])
      \<lparr>index_path = ''faiss.index'', meta_path = ''meta.npy'',
       index = [[0], [1], [2]],
        metadata = [[''text'' \<mapsto> ''a''], [''text'' \<mapsto> ''b''], [''text'' \<mapsto> ''c'']]\<rparr> ''q'' 3 =
    Inr [(''a'', [''text'' \<mapsto> ''a''], 0 :: real), (''b'', [''text'' \<mapsto> ''b''], 1),
      (''c'', [''text'' \<mapsto> ''c''], 4)] \<and>
   [(''a'', [''text'' \<mapsto> ''a''], 0 :: real), (''b'', [''text'' \<mapsto> ''b''], 1),
      (''c'', [''text'' \<mapsto> ''c''], 4)] \<noteq> [] \<and>
   (\<exists>r b. answer_question flat_l2_search (\<lambda>t. [0])
      (\<lambda>q c. if c = ''b'' then Inl ''model failure''
         else Inr \<lparr>out_answer = Some c, out_score = Some 0.5\<rparr>)
      \<lparr>index_path = ''faiss.index'', meta_path = ''meta.npy'',
       index = [[0], [1], [2]],
        metadata = [[''text'' \<mapsto> ''a''], [''text'' \<mapsto> ''b''], [''text'' \<mapsto> ''c'']]\<rparr> ''q'' 3 = Inr r \<and>
      best_answer r = Some b \<and> b \<in> set (all_answers r) \<and> all_answers r \<noteq> [])"
  (is "?A \<and> ?B \<and> ?C")
proof -
  have a: ?A by (simp add: search_def flat_l2_search_def l2_sqr_def py_getitem_def)
  have b: ?B by simp
  have c: ?C by (rule best_answer_is_candidate [OF a b])
  from a b c show ?thesis by (intro conjI)
qed

end
